theory Spec2Isabelle
  imports Main "HOL-Library.Multiset"
begin

section \<open>Step responses and their combination\<close>

text \<open>
  Modelled from the spec: \<open>UsageStatistics\<close> is imported from
  \<open>letta.schemas.openai.chat_completion_response\<close>, which is not part of the
  sources at hand. The specification describes it as the additive triple
  \<open>{promptTokens, completionTokens, totalTokens}\<close>; \<open>UsageStatistics()\<close> is the
  all-zero value and \<open>+=\<close> adds field by field. Python integers are unbounded.
\<close>

record usage_statistics =
  completion_tokens :: int
  prompt_tokens :: int
  total_tokens :: int

definition UsageStatistics :: usage_statistics where
  "UsageStatistics = \<lparr>completion_tokens = 0, prompt_tokens = 0, total_tokens = 0\<rparr>"

definition usage_add :: "usage_statistics \<Rightarrow> usage_statistics \<Rightarrow> usage_statistics" where
  "usage_add a b =
     \<lparr>completion_tokens = completion_tokens a + completion_tokens b,
      prompt_tokens = prompt_tokens a + prompt_tokens b,
      total_tokens = total_tokens a + total_tokens b\<rparr>"

text \<open>
  \<open>AgentStepResponse\<close> with the five fields that \<open>_combine_steps\<close> reads and
  writes. The message type is left open: the orchestrator never looks inside a message.
\<close>

record 'm agent_step_response =
  messages :: "'m list"
  heartbeat_request :: bool
  function_failed :: bool
  in_context_memory_warning :: bool
  usage :: usage_statistics

text \<open>The value \<open>combined_step\<close> is initialised with in \<open>_combine_steps\<close>.\<close>

definition empty_step :: "'m agent_step_response" where
  "empty_step =
     \<lparr>messages = [], heartbeat_request = False, function_failed = False,
      in_context_memory_warning = False, usage = UsageStatistics\<rparr>"

text \<open>One iteration of the loop \<open>for step in steps\<close>.\<close>

definition combine_one ::
  "'m agent_step_response \<Rightarrow> 'm agent_step_response \<Rightarrow> 'm agent_step_response" where
  "combine_one combined_step step =
     \<lparr>messages = messages combined_step @ messages step,
      heartbeat_request = (heartbeat_request combined_step \<or> heartbeat_request step),
      function_failed = (function_failed combined_step \<or> function_failed step),
      in_context_memory_warning =
        (in_context_memory_warning combined_step \<or> in_context_memory_warning step),
      usage = usage_add (usage combined_step) (usage step)\<rparr>"

text \<open>\<open>SplitThreadAgent._combine_steps(*steps)\<close>: the loop over the arguments.\<close>

definition combine_steps :: "'m agent_step_response list \<Rightarrow> 'm agent_step_response" where
  "combine_steps steps = foldl combine_one empty_step steps"

section \<open>Splitting the tools between the two agents\<close>

definition MEMORY_TOOLS :: "string list" where
  "MEMORY_TOOLS = [''core_memory_append'', ''core_memory_replace'', ''archival_memory_insert'']"

text \<open>
  A \<open>Tool\<close> object; only its \<open>name\<close> is inspected by
  \<open>create_split_thread_agent\<close>. The theorems are stated for every extension of the
  record, so the remaining fields of the class do not matter.
\<close>

record tool =
  name :: string
  source_type :: string
  source_code :: string

definition memory_tool_objs :: "'a tool_scheme list \<Rightarrow> 'a tool_scheme list" where
  "memory_tool_objs tool_objs = [i \<leftarrow> tool_objs. name i \<in> set MEMORY_TOOLS]"

definition conversation_tool_objs :: "'a tool_scheme list \<Rightarrow> 'a tool_scheme list" where
  "conversation_tool_objs tool_objs = [i \<leftarrow> tool_objs. name i \<notin> set MEMORY_TOOLS]"

section \<open>One call of \<open>step\<close>: the calling thread and the memory thread\<close>

text \<open>
  \<open>SplitThreadAgent.step\<close> starts a thread running \<open>_memory_step\<close> and then
  runs the conversation agent on the calling thread. The two threads share the
  attributes of the orchestrator and three locks. Each thread is modelled as a program
  counter over the statements of its method; a transition executes one statement, and
  a statement that acquires a lock is enabled only while the lock is free. The
  interleaving of the two threads is a schedule, a list of thread names.

  The model covers one call of \<open>step\<close> together with the memory thread that this
  call starts; memory threads of earlier calls are taken to have ended. A thread
  blocked in \<open>Condition.wait()\<close> continues only after a \<open>notify()\<close>, as in
  CPython, where a waiter blocks on a lock of its own that only \<open>notify\<close> releases.
\<close>

datatype thread = Conversation | Memory

text \<open>
  Both agents are instances of \<open>letta.agent.Agent\<close>, whose \<open>step\<close> is not part of
  the sources at hand and is opaque to the orchestrator: it returns an
  \<open>AgentStepResponse\<close> or raises. What an invocation does in the run considered is a
  parameter. An invocation of the conversation agent may call the linked tool
  \<open>wait_for_memory_update\<close> (the method \<open>_wait_for_memory_tool\<close>) some number of
  times before it ends; an invocation of the memory agent leaves the memory agent's
  memory at some value. The tool is taken to run the method as it is written, on the
  \<open>SplitThreadAgent\<close> whose condition and flags the method names.
\<close>

datatype 'm outcome = Returns "'m agent_step_response" | Raises

record 'm turn =
  tool_calls :: nat
  turn_outcome :: "'m outcome"

record ('m, 'mem) agents =
  conversation_agent_step :: "nat \<Rightarrow> 'm turn"
  memory_agent_step :: "'m outcome"
  memory_agent_memory_after :: "'mem"

text \<open>
  The statements of \<open>step\<close> (and of \<open>_wait_for_memory_tool\<close>, which runs on the
  calling thread, inside the conversation agent's \<open>step\<close>). The line numbers refer
  to \<open>letta/split_thread_agent.py\<close>.
\<close>

datatype conv_pc =
    C_ResetFinished             \<comment> \<open>line 104: \<open>self.memory_finished = False\<close>\<close>
  | C_StartThread               \<comment> \<open>line 120: \<open>memory_thread.start()\<close>\<close>
  | C_AcquireConversationLock   \<comment> \<open>line 122: \<open>with self.conversation_agent_lock\<close>\<close>
  | C_CallConversation          \<comment> \<open>lines 123 and 137: \<open>self.conversation_agent.step(...)\<close> is entered\<close>
  | C_InConversation            \<comment> \<open>inside \<open>conversation_agent.step\<close>\<close>
  | C_AcquireCondition          \<comment> \<open>line 201: \<open>with self.memory_condition\<close>\<close>
  | C_TestFinished              \<comment> \<open>line 202: \<open>while not self.memory_finished\<close>\<close>
  | C_Waiting                   \<comment> \<open>line 203: blocked in \<open>self.memory_condition.wait()\<close>\<close>
  | C_Notified                  \<comment> \<open>line 203: notified, \<open>wait()\<close> takes the lock again\<close>
  | C_SetWaited                 \<comment> \<open>line 205: \<open>self.conversation_waited = True\<close>\<close>
  | C_TestWaited                \<comment> \<open>line 136: \<open>if self.conversation_waited\<close>\<close>
  | C_CombineRetry              \<comment> \<open>lines 149-150: combine, \<open>self.conversation_waited = False\<close>\<close>
  | C_ReleaseConversationLock   \<comment> \<open>end of the \<open>with\<close> block of line 122\<close>
  | C_AcquireResultLock         \<comment> \<open>lines 152-153: \<open>step = conversation_step\<close>, \<open>with self.memory_result_lock\<close>\<close>
  | C_MergeResult               \<comment> \<open>lines 154-156, and the end of the \<open>with\<close> block\<close>
  | C_Returned                  \<comment> \<open>line 158: \<open>return step\<close>\<close>
  | C_Raised                    \<comment> \<open>the conversation agent raised: \<open>step\<close> raises\<close>

text \<open>The statements of \<open>_memory_step\<close>.\<close>

datatype mem_pc =
    M_NotStarted
  | M_CallMemory                \<comment> \<open>line 173: \<open>memory_step = self.memory_agent.step(...)\<close>\<close>
  | M_AcquireResultLock         \<comment> \<open>line 185: \<open>with self.memory_result_lock\<close>\<close>
  | M_StoreResult               \<comment> \<open>lines 186-189, and the end of the \<open>with\<close> block\<close>
  | M_SetFinished               \<comment> \<open>line 190: \<open>self.memory_finished = True\<close>\<close>
  | M_AcquireConversationLock   \<comment> \<open>line 192: \<open>with self.conversation_agent_lock\<close>\<close>
  | M_SyncMemory                \<comment> \<open>lines 193-195, and the end of the \<open>with\<close> block\<close>
  | M_AcquireCondition          \<comment> \<open>line 197: \<open>with self.memory_condition\<close>\<close>
  | M_Notify                    \<comment> \<open>line 198: \<open>self.memory_condition.notify()\<close>, end of the block\<close>
  | M_Finished                  \<comment> \<open>\<open>_memory_step\<close> has returned\<close>
  | M_Raised                    \<comment> \<open>the memory agent raised: the thread has ended\<close>

text \<open>
  The attributes of the \<open>SplitThreadAgent\<close> that the two methods touch, the local
  variables of the two methods, and the two program counters. A lock records its
  holder. \<open>conv_calls\<close> counts the invocations of \<open>conversation_agent.step\<close>.
\<close>

record ('m, 'mem) state =
  memory_finished :: bool
  conversation_waited :: bool
  memory_result :: "'m agent_step_response option"
  conversation_agent_lock :: "thread option"
  memory_result_lock :: "thread option"
  memory_condition :: "thread option"
  conversation_agent_memory :: "'mem"
  memory_agent_memory :: "'mem"
  conv_pc :: conv_pc
  conv_calls :: nat
  current_turn :: "'m turn"
  conversation_step :: "'m agent_step_response option"
  next_conversation_step :: "'m agent_step_response option"
  step_result :: "'m agent_step_response option"
  mem_pc :: mem_pc
  memory_step :: "'m agent_step_response option"

text \<open>
  Lines 154-156. \<open>if self.memory_result\<close> tests an \<open>AgentStepResponse\<close> or
  \<open>None\<close>; the response object is always true, so the test is \<open>is not None\<close>.
\<close>

definition merge_result ::
  "'m agent_step_response option \<Rightarrow> 'm agent_step_response
    \<Rightarrow> 'm agent_step_response \<times> 'm agent_step_response option" where
  "merge_result slot conversation =
     (case slot of
        Some memory \<Rightarrow> (combine_steps [memory, conversation], None)
      | None \<Rightarrow> (conversation, None))"

text \<open>Lines 186-189.\<close>

definition store_result ::
  "'m agent_step_response option \<Rightarrow> 'm agent_step_response \<Rightarrow> 'm agent_step_response option" where
  "store_result slot memory =
     (case slot of
        Some pending \<Rightarrow> Some (combine_steps [pending, memory])
      | None \<Rightarrow> Some memory)"

definition conversation_thread_step ::
  "('m, 'mem) agents \<Rightarrow> ('m, 'mem) state \<Rightarrow> ('m, 'mem) state option" where
  "conversation_thread_step ag s =
     (case conv_pc s of
        C_ResetFinished \<Rightarrow> Some (s\<lparr>memory_finished := False, conv_pc := C_StartThread\<rparr>)
      | C_StartThread \<Rightarrow> Some (s\<lparr>mem_pc := M_CallMemory, conv_pc := C_AcquireConversationLock\<rparr>)
      | C_AcquireConversationLock \<Rightarrow>
          (if conversation_agent_lock s = None
           then Some (s\<lparr>conversation_agent_lock := Some Conversation, conv_pc := C_CallConversation\<rparr>)
           else None)
      | C_CallConversation \<Rightarrow>
          Some (s\<lparr>current_turn := conversation_agent_step ag (conv_calls s),
                  conv_calls := Suc (conv_calls s), conv_pc := C_InConversation\<rparr>)
      | C_InConversation \<Rightarrow>
          (case tool_calls (current_turn s) of
             Suc n \<Rightarrow>
               Some (s\<lparr>current_turn := (current_turn s)\<lparr>tool_calls := n\<rparr>,
                       conv_pc := C_AcquireCondition\<rparr>)
           | 0 \<Rightarrow>
              (case turn_outcome (current_turn s) of
                 Raises \<Rightarrow> Some (s\<lparr>conversation_agent_lock := None, conv_pc := C_Raised\<rparr>)
               | Returns r \<Rightarrow>
                  (case conversation_step s of
                     None \<Rightarrow> Some (s\<lparr>conversation_step := Some r, conv_pc := C_TestWaited\<rparr>)
                   | Some c \<Rightarrow>
                       Some (s\<lparr>next_conversation_step := Some r, conv_pc := C_CombineRetry\<rparr>))))
      | C_AcquireCondition \<Rightarrow>
          (if memory_condition s = None
           then Some (s\<lparr>memory_condition := Some Conversation, conv_pc := C_TestFinished\<rparr>)
           else None)
      | C_TestFinished \<Rightarrow>
          (if memory_finished s
           then Some (s\<lparr>memory_condition := None, conv_pc := C_SetWaited\<rparr>)
           else Some (s\<lparr>memory_condition := None, conv_pc := C_Waiting\<rparr>))
      | C_Waiting \<Rightarrow> None
      | C_Notified \<Rightarrow>
          (if memory_condition s = None
           then Some (s\<lparr>memory_condition := Some Conversation, conv_pc := C_TestFinished\<rparr>)
           else None)
      | C_SetWaited \<Rightarrow> Some (s\<lparr>conversation_waited := True, conv_pc := C_InConversation\<rparr>)
      | C_TestWaited \<Rightarrow>
          (if conversation_waited s
           then Some (s\<lparr>conv_pc := C_CallConversation\<rparr>)
           else Some (s\<lparr>conv_pc := C_ReleaseConversationLock\<rparr>))
      | C_CombineRetry \<Rightarrow>
          (case (conversation_step s, next_conversation_step s) of
             (Some c, Some n) \<Rightarrow>
               Some (s\<lparr>conversation_step := Some (combine_steps [c, n]),
                       conversation_waited := False, conv_pc := C_ReleaseConversationLock\<rparr>)
           | _ \<Rightarrow> None)
      | C_ReleaseConversationLock \<Rightarrow>
          Some (s\<lparr>conversation_agent_lock := None, conv_pc := C_AcquireResultLock\<rparr>)
      | C_AcquireResultLock \<Rightarrow>
          (if memory_result_lock s = None
           then Some (s\<lparr>step_result := conversation_step s,
                        memory_result_lock := Some Conversation, conv_pc := C_MergeResult\<rparr>)
           else None)
      | C_MergeResult \<Rightarrow>
          (case conversation_step s of
             Some c \<Rightarrow>
               Some (s\<lparr>step_result := Some (fst (merge_result (memory_result s) c)),
                       memory_result := snd (merge_result (memory_result s) c),
                       memory_result_lock := None, conv_pc := C_Returned\<rparr>)
           | None \<Rightarrow> None)
      | C_Returned \<Rightarrow> None
      | C_Raised \<Rightarrow> None)"

definition memory_thread_step ::
  "('m, 'mem) agents \<Rightarrow> ('m, 'mem) state \<Rightarrow> ('m, 'mem) state option" where
  "memory_thread_step ag s =
     (case mem_pc s of
        M_NotStarted \<Rightarrow> None
      | M_CallMemory \<Rightarrow>
          (case memory_agent_step ag of
             Raises \<Rightarrow> Some (s\<lparr>mem_pc := M_Raised\<rparr>)
           | Returns r \<Rightarrow>
               Some (s\<lparr>memory_agent_memory := memory_agent_memory_after ag,
                       memory_step := Some r, mem_pc := M_AcquireResultLock\<rparr>))
      | M_AcquireResultLock \<Rightarrow>
          (if memory_result_lock s = None
           then Some (s\<lparr>memory_result_lock := Some Memory, mem_pc := M_StoreResult\<rparr>)
           else None)
      | M_StoreResult \<Rightarrow>
          (case memory_step s of
             Some r \<Rightarrow>
               Some (s\<lparr>memory_result := store_result (memory_result s) r,
                       memory_result_lock := None, mem_pc := M_SetFinished\<rparr>)
           | None \<Rightarrow> None)
      | M_SetFinished \<Rightarrow> Some (s\<lparr>memory_finished := True, mem_pc := M_AcquireConversationLock\<rparr>)
      | M_AcquireConversationLock \<Rightarrow>
          (if conversation_agent_lock s = None
           then Some (s\<lparr>conversation_agent_lock := Some Memory, mem_pc := M_SyncMemory\<rparr>)
           else None)
      | M_SyncMemory \<Rightarrow>
          Some (s\<lparr>conversation_agent_memory := memory_agent_memory s,
                  conversation_agent_lock := None, mem_pc := M_AcquireCondition\<rparr>)
      | M_AcquireCondition \<Rightarrow>
          (if memory_condition s = None
           then Some (s\<lparr>memory_condition := Some Memory, mem_pc := M_Notify\<rparr>)
           else None)
      | M_Notify \<Rightarrow>
          Some (s\<lparr>conv_pc := (if conv_pc s = C_Waiting then C_Notified else conv_pc s),
                  memory_condition := None, mem_pc := M_Finished\<rparr>)
      | M_Finished \<Rightarrow> None
      | M_Raised \<Rightarrow> None)"

definition thread_step ::
  "('m, 'mem) agents \<Rightarrow> thread \<Rightarrow> ('m, 'mem) state \<Rightarrow> ('m, 'mem) state option" where
  "thread_step ag t s =
     (case t of Conversation \<Rightarrow> conversation_thread_step ag s | Memory \<Rightarrow> memory_thread_step ag s)"

text \<open>
  Running a schedule: \<open>None\<close> when the schedule names a thread that cannot move (it is
  blocked on a lock or on the condition, or it has ended).
\<close>

fun exec ::
  "('m, 'mem) agents \<Rightarrow> thread list \<Rightarrow> ('m, 'mem) state \<Rightarrow> ('m, 'mem) state option" where
  "exec ag [] s = Some s"
| "exec ag (t # ts) s =
     (case thread_step ag t s of None \<Rightarrow> None | Some s' \<Rightarrow> exec ag ts s')"

text \<open>
  The state in which \<open>step\<close> is entered: both locks and the condition are free, no
  memory thread runs, the conversation agent has not been invoked. The pending memory
  result, the two flags and the two memories are whatever earlier calls left.
\<close>

definition entry ::
  "'m agent_step_response option \<Rightarrow> bool \<Rightarrow> bool \<Rightarrow> 'mem \<Rightarrow> 'mem \<Rightarrow> ('m, 'mem) state" where
  "entry slot waited finished cm mm =
     \<lparr>memory_finished = finished, conversation_waited = waited, memory_result = slot,
      conversation_agent_lock = None, memory_result_lock = None, memory_condition = None,
      conversation_agent_memory = cm, memory_agent_memory = mm,
      conv_pc = C_ResetFinished, conv_calls = 0,
      current_turn = \<lparr>tool_calls = 0, turn_outcome = Raises\<rparr>,
      conversation_step = None, next_conversation_step = None, step_result = None,
      mem_pc = M_NotStarted, memory_step = None\<rparr>"

text \<open>No thread can move, and \<open>step\<close> has neither returned nor raised.\<close>

definition stuck :: "('m, 'mem) agents \<Rightarrow> ('m, 'mem) state \<Rightarrow> bool" where
  "stuck ag s =
     (conversation_thread_step ag s = None \<and> memory_thread_step ag s = None
      \<and> conv_pc s \<noteq> C_Returned \<and> conv_pc s \<noteq> C_Raised)"

section \<open>Invariants of a call of \<open>step\<close>\<close>

text \<open>
  Groups of statements: the statements the calling thread executes while it holds
  \<open>conversation_agent_lock\<close>; the statements of \<open>_wait_for_memory_tool\<close>; the
  statements of \<open>_memory_step\<close> before \<open>memory_finished\<close> is set, before the
  conversation agent's memory is overwritten, after the memory agent has returned, and
  after the pending result has been stored.
\<close>

fun in_conversation_section :: "conv_pc \<Rightarrow> bool" where
  "in_conversation_section C_CallConversation = True"
| "in_conversation_section C_InConversation = True"
| "in_conversation_section C_AcquireCondition = True"
| "in_conversation_section C_TestFinished = True"
| "in_conversation_section C_Waiting = True"
| "in_conversation_section C_Notified = True"
| "in_conversation_section C_SetWaited = True"
| "in_conversation_section C_TestWaited = True"
| "in_conversation_section C_CombineRetry = True"
| "in_conversation_section C_ReleaseConversationLock = True"
| "in_conversation_section _ = False"

fun in_tool :: "conv_pc \<Rightarrow> bool" where
  "in_tool C_AcquireCondition = True"
| "in_tool C_TestFinished = True"
| "in_tool C_Waiting = True"
| "in_tool C_Notified = True"
| "in_tool C_SetWaited = True"
| "in_tool _ = False"

fun before_set_finished :: "mem_pc \<Rightarrow> bool" where
  "before_set_finished M_NotStarted = True"
| "before_set_finished M_CallMemory = True"
| "before_set_finished M_AcquireResultLock = True"
| "before_set_finished M_StoreResult = True"
| "before_set_finished M_SetFinished = True"
| "before_set_finished M_Raised = True"
| "before_set_finished _ = False"

fun before_sync :: "mem_pc \<Rightarrow> bool" where
  "before_sync M_SyncMemory = False"
| "before_sync M_AcquireCondition = False"
| "before_sync M_Notify = False"
| "before_sync M_Finished = False"
| "before_sync _ = True"

fun called :: "mem_pc \<Rightarrow> bool" where
  "called M_NotStarted = False"
| "called M_CallMemory = False"
| "called M_Raised = False"
| "called _ = True"

fun stored :: "mem_pc \<Rightarrow> bool" where
  "stored M_SetFinished = True"
| "stored M_AcquireConversationLock = True"
| "stored M_SyncMemory = True"
| "stored M_AcquireCondition = True"
| "stored M_Notify = True"
| "stored M_Finished = True"
| "stored _ = False"

text \<open>
  Each lock is held exactly by the thread that stands inside the corresponding
  \<open>with\<close> block, the two threads are never inside the same block, and the memory
  thread exists from \<open>memory_thread.start()\<close> on.
\<close>

definition lock_inv :: "('m, 'mem) state \<Rightarrow> bool" where
  "lock_inv s =
     (conversation_agent_lock s =
        (if in_conversation_section (conv_pc s) then Some Conversation
         else if mem_pc s = M_SyncMemory then Some Memory else None)
      \<and> \<not> (in_conversation_section (conv_pc s) \<and> mem_pc s = M_SyncMemory)
      \<and> memory_result_lock s =
        (if conv_pc s = C_MergeResult then Some Conversation
         else if mem_pc s = M_StoreResult then Some Memory else None)
      \<and> \<not> (conv_pc s = C_MergeResult \<and> mem_pc s = M_StoreResult)
      \<and> memory_condition s =
        (if conv_pc s = C_TestFinished then Some Conversation
         else if mem_pc s = M_Notify then Some Memory else None)
      \<and> \<not> (conv_pc s = C_TestFinished \<and> mem_pc s = M_Notify)
      \<and> (mem_pc s = M_NotStarted) = (conv_pc s = C_ResetFinished \<or> conv_pc s = C_StartThread))"

text \<open>
  After the flag has been reset, \<open>memory_finished\<close> is true once the memory thread has
  passed line 190; nobody is ever notified; and while the calling thread is blocked in
  \<open>wait()\<close> the memory thread has not yet entered the block of line 192.
\<close>

definition park_inv :: "('m, 'mem) state \<Rightarrow> bool" where
  "park_inv s =
     (lock_inv s
      \<and> (conv_pc s = C_ResetFinished \<or> memory_finished s \<or> before_set_finished (mem_pc s))
      \<and> conv_pc s \<noteq> C_Notified
      \<and> (conv_pc s \<noteq> C_Waiting \<or> before_sync (mem_pc s)))"

definition parked :: "('m, 'mem) state \<Rightarrow> bool" where
  "parked s = (park_inv s \<and> conv_pc s = C_Waiting)"

text \<open>
  What the calling thread knows at each statement about the number of invocations of the
  conversation agent and about \<open>conversation_step\<close>.
\<close>

definition first_done :: "('m, 'mem) agents \<Rightarrow> ('m, 'mem) state \<Rightarrow> bool" where
  "first_done ag s =
     (case conversation_step s of
        None \<Rightarrow> False
      | Some c \<Rightarrow> turn_outcome (conversation_agent_step ag 0) = Returns c)"

definition in_turn :: "('m, 'mem) agents \<Rightarrow> ('m, 'mem) state \<Rightarrow> bool" where
  "in_turn ag s =
     (conv_calls s = 1 \<and> conversation_step s = None
        \<and> turn_outcome (current_turn s) = turn_outcome (conversation_agent_step ag 0)
      \<or> conv_calls s = 2 \<and> first_done ag s
        \<and> turn_outcome (current_turn s) = turn_outcome (conversation_agent_step ag 1))"

definition both_done :: "('m, 'mem) agents \<Rightarrow> ('m, 'mem) state \<Rightarrow> bool" where
  "both_done ag s =
     (case (turn_outcome (conversation_agent_step ag 0), turn_outcome (conversation_agent_step ag 1)) of
        (Returns c, Returns n) \<Rightarrow> conversation_step s = Some (combine_steps [c, n])
      | _ \<Rightarrow> False)"

definition turn_over :: "('m, 'mem) agents \<Rightarrow> ('m, 'mem) state \<Rightarrow> bool" where
  "turn_over ag s =
     (\<not> conversation_waited s
      \<and> (conv_calls s = 1 \<and> first_done ag s \<or> conv_calls s = 2 \<and> both_done ag s))"

definition calls_inv :: "('m, 'mem) agents \<Rightarrow> ('m, 'mem) state \<Rightarrow> bool" where
  "calls_inv ag s =
     (case conv_pc s of
        C_ResetFinished \<Rightarrow> conv_calls s = 0 \<and> conversation_step s = None
      | C_StartThread \<Rightarrow> conv_calls s = 0 \<and> conversation_step s = None
      | C_AcquireConversationLock \<Rightarrow> conv_calls s = 0 \<and> conversation_step s = None
      | C_CallConversation \<Rightarrow>
          conv_calls s = 0 \<and> conversation_step s = None \<or> conv_calls s = 1 \<and> first_done ag s
      | C_InConversation \<Rightarrow> in_turn ag s
      | C_AcquireCondition \<Rightarrow> in_turn ag s
      | C_TestFinished \<Rightarrow> in_turn ag s
      | C_Waiting \<Rightarrow> in_turn ag s
      | C_Notified \<Rightarrow> in_turn ag s
      | C_SetWaited \<Rightarrow> in_turn ag s
      | C_TestWaited \<Rightarrow> conv_calls s = 1 \<and> first_done ag s
      | C_CombineRetry \<Rightarrow>
          conv_calls s = 2 \<and> first_done ag s
          \<and> (case next_conversation_step s of
                None \<Rightarrow> False
              | Some n \<Rightarrow> turn_outcome (conversation_agent_step ag 1) = Returns n)
      | C_ReleaseConversationLock \<Rightarrow> turn_over ag s
      | C_AcquireResultLock \<Rightarrow> turn_over ag s
      | C_MergeResult \<Rightarrow> turn_over ag s
      | C_Returned \<Rightarrow> turn_over ag s
      | C_Raised \<Rightarrow> conv_calls s = 1 \<or> conv_calls s = 2)"

text \<open>
  The invariant of a call in which \<open>conversation_waited\<close> is false on entry and the
  first invocation calls no tool.
\<close>

definition no_retry_inv :: "('m, 'mem) state \<Rightarrow> bool" where
  "no_retry_inv s =
     (\<not> conversation_waited s \<and> conv_calls s \<le> 1
      \<and> \<not> in_tool (conv_pc s) \<and> conv_pc s \<noteq> C_CombineRetry
      \<and> (conv_pc s \<noteq> C_InConversation \<or> tool_calls (current_turn s) = 0)
      \<and> (conv_pc s \<noteq> C_CallConversation \<or> conv_calls s = 0))"

text \<open>
  The pending result, for a call entered with \<open>slot\<close> in \<open>memory_result\<close>:
  before the merge it is \<open>slot\<close>, with the memory response stored into it once the
  memory thread has passed lines 186-189; after the merge either the stored response went
  into the result of the call and the slot is empty, or the result was formed from
  \<open>slot\<close> alone and the slot holds the memory response as soon as it is stored.
\<close>

definition slot_inv ::
  "('m, 'mem) agents \<Rightarrow> 'm agent_step_response option \<Rightarrow> ('m, 'mem) state \<Rightarrow> bool" where
  "slot_inv ag slot s =
     ((\<not> called (mem_pc s)
        \<or> memory_agent_step ag = Returns (the (memory_step s)) \<and> memory_step s \<noteq> None)
      \<and> (if conv_pc s = C_Returned
          then (case conversation_step s of
                  None \<Rightarrow> False
                | Some c \<Rightarrow>
                    stored (mem_pc s) \<and> memory_result s = None
                      \<and> step_result s
                          = Some (fst (merge_result (store_result slot (the (memory_step s))) c))
                    \<or> memory_result s = (if stored (mem_pc s) then memory_step s else None)
                      \<and> step_result s = Some (fst (merge_result slot c)))
          else memory_result s
                 = (if stored (mem_pc s) then store_result slot (the (memory_step s)) else slot)))"

text \<open>
  The conversation agent's memory is the one of the entry, \<open>cm\<close>, until the memory
  thread has executed line 193, and the memory agent's new memory afterwards.
\<close>

definition sync_inv :: "('m, 'mem) agents \<Rightarrow> 'mem \<Rightarrow> ('m, 'mem) state \<Rightarrow> bool" where
  "sync_inv ag cm s =
     ((\<not> called (mem_pc s) \<or> memory_agent_memory s = memory_agent_memory_after ag)
      \<and> conversation_agent_memory s
          = (if before_sync (mem_pc s) \<or> mem_pc s = M_SyncMemory then cm
             else memory_agent_memory_after ag))"

definition all_inv ::
  "('m, 'mem) agents \<Rightarrow> 'm agent_step_response option \<Rightarrow> 'mem \<Rightarrow> ('m, 'mem) state \<Rightarrow> bool" where
  "all_inv ag slot cm s = (park_inv s \<and> calls_inv ag s \<and> slot_inv ag slot s \<and> sync_inv ag cm s)"

section \<open>Concrete agents and runs\<close>

text \<open>
  Two responses, and three pairs of agents: a conversation agent that calls no tool; one
  that calls \<open>wait_for_memory_update\<close> once in its first invocation; and the latter
  together with a memory agent that raises. The memory agent's response reports a failed
  function call. Memories are numbers: 0 on entry, 1 after the memory agent's step.
\<close>

definition example_reply :: "string agent_step_response" where
  "example_reply =
     \<lparr>messages = [''reply''], heartbeat_request = False, function_failed = False,
      in_context_memory_warning = False,
      usage = \<lparr>completion_tokens = 1, prompt_tokens = 2, total_tokens = 3\<rparr>\<rparr>"

definition example_memory :: "string agent_step_response" where
  "example_memory =
     \<lparr>messages = [''memory''], heartbeat_request = False, function_failed = True,
      in_context_memory_warning = False,
      usage = \<lparr>completion_tokens = 4, prompt_tokens = 5, total_tokens = 9\<rparr>\<rparr>"

definition plain_agents :: "(string, nat) agents" where
  "plain_agents =
     \<lparr>conversation_agent_step = (\<lambda>k. \<lparr>tool_calls = 0, turn_outcome = Returns example_reply\<rparr>),
      memory_agent_step = Returns example_memory, memory_agent_memory_after = 1\<rparr>"

definition waiting_agents :: "(string, nat) agents" where
  "waiting_agents =
     \<lparr>conversation_agent_step =
        (\<lambda>k. \<lparr>tool_calls = (if k = 0 then 1 else 0), turn_outcome = Returns example_reply\<rparr>),
      memory_agent_step = Returns example_memory, memory_agent_memory_after = 1\<rparr>"

definition raising_agents :: "(string, nat) agents" where
  "raising_agents =
     \<lparr>conversation_agent_step =
        (\<lambda>k. \<lparr>tool_calls = (if k = 0 then 1 else 0), turn_outcome = Returns example_reply\<rparr>),
      memory_agent_step = Raises, memory_agent_memory_after = 1\<rparr>"

text \<open>
  A response left pending by an earlier call, and a second response of the conversation
  agent; a conversation agent that calls the tool and then raises; and one whose first
  invocation calls the tool and returns \<open>example_reply\<close> and whose second invocation
  returns \<open>example_second\<close>.
\<close>

definition example_pending :: "string agent_step_response" where
  "example_pending =
     \<lparr>messages = [''earlier''], heartbeat_request = True, function_failed = False,
      in_context_memory_warning = False,
      usage = \<lparr>completion_tokens = 10, prompt_tokens = 20, total_tokens = 30\<rparr>\<rparr>"

definition example_second :: "string agent_step_response" where
  "example_second =
     \<lparr>messages = [''second''], heartbeat_request = True, function_failed = False,
      in_context_memory_warning = True,
      usage = \<lparr>completion_tokens = 7, prompt_tokens = 8, total_tokens = 15\<rparr>\<rparr>"

definition raising_conversation_agents :: "(string, nat) agents" where
  "raising_conversation_agents =
     \<lparr>conversation_agent_step = (\<lambda>k. \<lparr>tool_calls = 1, turn_outcome = Raises\<rparr>),
      memory_agent_step = Returns example_memory, memory_agent_memory_after = 1\<rparr>"

definition retrying_agents :: "(string, nat) agents" where
  "retrying_agents =
     \<lparr>conversation_agent_step =
        (\<lambda>k. if k = 0 then \<lparr>tool_calls = 1, turn_outcome = Returns example_reply\<rparr>
             else \<lparr>tool_calls = 0, turn_outcome = Returns example_second\<rparr>),
      memory_agent_step = Returns example_memory, memory_agent_memory_after = 1\<rparr>"

definition example_entry :: "(string, nat) state" where
  "example_entry = entry None False False 0 0"

text \<open>
  Runs of these agents. \<open>started\<close>: the memory thread has just been started.
  \<open>storing\<close> and \<open>storing_empty\<close>: the memory thread is about to store its
  response, into a slot that holds an earlier response and into an empty one.
  \<open>memory_first\<close>: the memory thread runs to its end before the calling thread takes
  the conversation lock; \<open>memory_first_merging\<close> and \<open>memory_first_returned\<close>
  continue that run to the merge and to the return. \<open>memory_late_merging\<close>: the
  calling thread reaches the merge before the memory thread has moved;
  \<open>memory_late_returned\<close>: it returns, and then the memory thread stores its response.
  \<open>parked_state\<close>: the calling thread has called the tool and blocks in \<open>wait()\<close>
  before the memory thread has moved; \<open>parked_end\<close>: the memory thread then runs as
  far as it can. \<open>stale_retry\<close>: the memory thread sets \<open>memory_finished\<close> while
  the calling thread is inside the conversation agent; the tool returns and the second
  invocation is about to start; \<open>retry_returned\<close>: that call returns.
  \<open>raised_parked\<close>: as \<open>parked_state\<close>, and then the memory agent raises.
\<close>

definition started :: "(string, nat) state option" where
  "started = exec plain_agents [Conversation, Conversation] example_entry"



definition memory_first :: "(string, nat) state option" where
  "memory_first = exec plain_agents ([Conversation, Conversation] @ replicate 8 Memory) example_entry"


definition memory_first_returned :: "(string, nat) state option" where
  "memory_first_returned =
     exec plain_agents ([Conversation, Conversation] @ replicate 8 Memory @ replicate 7 Conversation)
       example_entry"



definition parked_state :: "(string, nat) state option" where
  "parked_state = exec waiting_agents (replicate 7 Conversation) example_entry"

definition parked_end :: "(string, nat) state option" where
  "parked_end = exec waiting_agents (replicate 7 Conversation @ replicate 4 Memory) example_entry"

definition stale_retry :: "(string, nat) state option" where
  "stale_retry =
     exec waiting_agents (replicate 4 Conversation @ replicate 4 Memory @ replicate 6 Conversation)
       example_entry"

definition retry_returned :: "(string, nat) state option" where
  "retry_returned =
     exec waiting_agents (replicate 4 Conversation @ replicate 4 Memory @ replicate 12 Conversation)
       example_entry"

definition raised_parked :: "(string, nat) state option" where
  "raised_parked = exec raising_agents (replicate 7 Conversation @ [Memory]) example_entry"

text \<open>
  \<open>flag_left_true\<close>: a call in which the conversation agent calls the tool, finds the
  flag set, and then raises; the memory thread runs to its end. \<open>stale_flag_call\<close>:
  the next call, entered with the attributes the first one left, of a conversation agent
  that calls no tool; the calling thread runs alone until it returns. \<open>retried\<close>: as
  \<open>retry_returned\<close>, with two different responses. \<open>pending_memory_first_merging\<close>
  and \<open>pending_memory_late_returned\<close>: as \<open>memory_first_merging\<close> and
  \<open>memory_late_returned\<close>, for a call entered with a pending result.
\<close>

definition flag_left_true :: "(string, nat) state option" where
  "flag_left_true =
     exec raising_conversation_agents
       (replicate 4 Conversation @ replicate 4 Memory @ replicate 5 Conversation
          @ replicate 4 Memory)
       example_entry"

definition stale_flag_call :: "(string, nat) state option" where
  "stale_flag_call =
     exec plain_agents (replicate 12 Conversation) (entry (Some example_memory) True True 1 1)"

definition retried :: "(string, nat) state option" where
  "retried =
     exec retrying_agents
       (replicate 4 Conversation @ replicate 4 Memory @ replicate 12 Conversation) example_entry"



section \<open>Properties of the combination\<close>

lemma usage_add_assoc: "usage_add (usage_add a b) c = usage_add a (usage_add b c)"
  by (simp add: usage_add_def)

lemma usage_add_commute: "usage_add a b = usage_add b a"
  by (simp add: usage_add_def)

lemma usage_add_zero_right: "usage_add a UsageStatistics = a"
  by (simp add: usage_add_def UsageStatistics_def)

lemma usage_add_zero_left: "usage_add UsageStatistics a = a"
  by (simp add: usage_add_def UsageStatistics_def)

lemma combine_one_assoc:
  "combine_one (combine_one a b) c = combine_one a (combine_one b c)"
  by (simp add: combine_one_def usage_add_assoc)

lemma combine_one_empty_right: "combine_one a empty_step = a"
  by (simp add: combine_one_def empty_step_def usage_add_zero_right)

lemma combine_one_empty_left: "combine_one empty_step a = a"
  by (simp add: combine_one_def empty_step_def usage_add_zero_left)

lemma foldl_combine_one: "foldl combine_one a steps = combine_one a (foldl combine_one empty_step steps)"
proof (induction steps arbitrary: a)
  case Nil
  show ?case by (simp add: combine_one_empty_right)
next
  case (Cons s steps)
  have "foldl combine_one a (s # steps) = combine_one (combine_one a s) (foldl combine_one empty_step steps)"
    using Cons.IH [of "combine_one a s"] by simp
  also have "\<dots> = combine_one a (combine_one s (foldl combine_one empty_step steps))"
    by (rule combine_one_assoc)
  also have "combine_one s (foldl combine_one empty_step steps) = foldl combine_one empty_step (s # steps)"
    using Cons.IH [of "combine_one empty_step s"] by (simp add: combine_one_empty_left)
  finally show ?case .
qed

lemma combine_steps_Nil: "combine_steps [] = empty_step"
  by (simp add: combine_steps_def)

lemma combine_steps_single: "combine_steps [a] = a"
  by (simp add: combine_steps_def combine_one_empty_left)

lemma combine_steps_pair: "combine_steps [a, b] = combine_one a b"
  by (simp add: combine_steps_def combine_one_empty_left)

lemma combine_steps_append:
  "combine_steps (xs @ ys) = combine_one (combine_steps xs) (combine_steps ys)"
  unfolding combine_steps_def foldl_append by (rule foldl_combine_one)

text \<open>
  Claim C4. The merge of step results is associative; it is commutative on the three
  boolean fields (combined by disjunction) and on the usage (combined by addition);
  the messages of a merge are the messages of the arguments, concatenated in argument
  order.
\<close>

theorem combine_steps_assoc_commute:
  "combine_steps [combine_steps [A, B], C] = combine_steps [A, combine_steps [B, C]]
   \<and> heartbeat_request (combine_steps [A, B]) = heartbeat_request (combine_steps [B, A])
   \<and> function_failed (combine_steps [A, B]) = function_failed (combine_steps [B, A])
   \<and> in_context_memory_warning (combine_steps [A, B])
       = in_context_memory_warning (combine_steps [B, A])
   \<and> usage (combine_steps [A, B]) = usage (combine_steps [B, A])
   \<and> heartbeat_request (combine_steps [A, B]) = (heartbeat_request A \<or> heartbeat_request B)
   \<and> function_failed (combine_steps [A, B]) = (function_failed A \<or> function_failed B)
   \<and> in_context_memory_warning (combine_steps [A, B])
       = (in_context_memory_warning A \<or> in_context_memory_warning B)
   \<and> usage (combine_steps [A, B]) = usage_add (usage A) (usage B)
   \<and> messages (combine_steps [A, B]) = messages A @ messages B
   \<and> messages (combine_steps [combine_steps [A, B], C]) = messages A @ messages B @ messages C"
  by (simp add: combine_steps_pair combine_one_assoc)
    (auto simp add: combine_one_def usage_add_commute)

text \<open>
  Claim C9. Applied to no steps at all, \<open>_combine_steps\<close> returns the neutral
  result (no messages, the three flags false, zero usage). Merging any result with the
  neutral one, on either side, gives the result back, and the merge of a sequence is
  the fold of the binary merge over it: the merge of a concatenation is the merge of
  the merges of its parts.
\<close>

theorem combine_steps_monoid:
  "combine_steps ([] :: 'm agent_step_response list)
     = \<lparr>messages = [], heartbeat_request = False, function_failed = False,
        in_context_memory_warning = False,
        usage = \<lparr>completion_tokens = 0, prompt_tokens = 0, total_tokens = 0\<rparr>\<rparr>
   \<and> combine_steps [r, combine_steps []] = (r :: 'm agent_step_response)
   \<and> combine_steps [combine_steps [], r] = r
   \<and> messages (combine_steps [r, combine_steps []]) = messages r
   \<and> heartbeat_request (combine_steps [r, combine_steps []]) = heartbeat_request r
   \<and> function_failed (combine_steps [r, combine_steps []]) = function_failed r
   \<and> in_context_memory_warning (combine_steps [r, combine_steps []])
       = in_context_memory_warning r
   \<and> combine_steps [r] = r
   \<and> combine_steps (xs @ ys) = combine_steps [combine_steps xs, combine_steps ys]"
proof -
  have e: "combine_steps ([] :: 'm agent_step_response list) = empty_step"
    by (rule combine_steps_Nil)
  have n1: "combine_steps [r, empty_step] = r"
    by (simp add: combine_steps_pair combine_one_empty_right)
  have n2: "combine_steps [empty_step, r] = r"
    by (simp add: combine_steps_pair combine_one_empty_left)
  have ap: "combine_steps (xs @ ys) = combine_steps [combine_steps xs, combine_steps ys]"
    by (simp add: combine_steps_pair combine_steps_append)
  show ?thesis
    unfolding e n1 n2
    using ap by (simp add: empty_step_def UsageStatistics_def combine_steps_single)
qed

section \<open>Properties of the tool split\<close>

text \<open>
  Claim C10. \<open>create_split_thread_agent\<close> splits the tools by name: a tool goes to
  the memory agent exactly when its name is one of \<open>core_memory_append\<close>,
  \<open>core_memory_replace\<close>, \<open>archival_memory_insert\<close>, and to the conversation agent
  otherwise. No tool goes to both, none is dropped and none is duplicated (the two
  lists together hold every tool as often as the input does).
\<close>

theorem create_split_thread_agent_partition:
  "set (memory_tool_objs tool_objs) \<union> set (conversation_tool_objs tool_objs) = set tool_objs
   \<and> set (memory_tool_objs tool_objs) \<inter> set (conversation_tool_objs tool_objs) = {}
   \<and> mset (memory_tool_objs tool_objs) + mset (conversation_tool_objs tool_objs) = mset tool_objs
   \<and> set (memory_tool_objs tool_objs)
       = {i \<in> set tool_objs. name i = ''core_memory_append'' \<or> name i = ''core_memory_replace''
            \<or> name i = ''archival_memory_insert''}
   \<and> set (conversation_tool_objs tool_objs)
       = {i \<in> set tool_objs. \<not> (name i = ''core_memory_append'' \<or> name i = ''core_memory_replace''
            \<or> name i = ''archival_memory_insert'')}"
proof -
  have m: "mset (memory_tool_objs tool_objs) + mset (conversation_tool_objs tool_objs) = mset tool_objs"
    unfolding memory_tool_objs_def conversation_tool_objs_def
    by (induction tool_objs) simp_all
  show ?thesis
    using m by (auto simp add: memory_tool_objs_def conversation_tool_objs_def MEMORY_TOOLS_def)
qed

section \<open>The transitions, case by case\<close>

lemma conversation_thread_step_cases [consumes 1, case_names reset start lock call tool raise first second cond go wait woken set_waited retry no_retry combine release result_lock merge]:
  assumes "conversation_thread_step ag s = Some s'"
  obtains
    "conv_pc s = C_ResetFinished"
      "s' = s\<lparr>memory_finished := False, conv_pc := C_StartThread\<rparr>"
  | "conv_pc s = C_StartThread"
      "s' = s\<lparr>mem_pc := M_CallMemory, conv_pc := C_AcquireConversationLock\<rparr>"
  | "conv_pc s = C_AcquireConversationLock" "conversation_agent_lock s = None"
      "s' = s\<lparr>conversation_agent_lock := Some Conversation, conv_pc := C_CallConversation\<rparr>"
  | "conv_pc s = C_CallConversation"
      "s' = s\<lparr>current_turn := conversation_agent_step ag (conv_calls s),
               conv_calls := Suc (conv_calls s), conv_pc := C_InConversation\<rparr>"
  | n where "conv_pc s = C_InConversation" "tool_calls (current_turn s) = Suc n"
      "s' = s\<lparr>current_turn := (current_turn s)\<lparr>tool_calls := n\<rparr>, conv_pc := C_AcquireCondition\<rparr>"
  | "conv_pc s = C_InConversation" "tool_calls (current_turn s) = 0"
      "turn_outcome (current_turn s) = Raises"
      "s' = s\<lparr>conversation_agent_lock := None, conv_pc := C_Raised\<rparr>"
  | r where "conv_pc s = C_InConversation" "tool_calls (current_turn s) = 0"
      "turn_outcome (current_turn s) = Returns r" "conversation_step s = None"
      "s' = s\<lparr>conversation_step := Some r, conv_pc := C_TestWaited\<rparr>"
  | r c where "conv_pc s = C_InConversation" "tool_calls (current_turn s) = 0"
      "turn_outcome (current_turn s) = Returns r" "conversation_step s = Some c"
      "s' = s\<lparr>next_conversation_step := Some r, conv_pc := C_CombineRetry\<rparr>"
  | "conv_pc s = C_AcquireCondition" "memory_condition s = None"
      "s' = s\<lparr>memory_condition := Some Conversation, conv_pc := C_TestFinished\<rparr>"
  | "conv_pc s = C_TestFinished" "memory_finished s"
      "s' = s\<lparr>memory_condition := None, conv_pc := C_SetWaited\<rparr>"
  | "conv_pc s = C_TestFinished" "\<not> memory_finished s"
      "s' = s\<lparr>memory_condition := None, conv_pc := C_Waiting\<rparr>"
  | "conv_pc s = C_Notified" "memory_condition s = None"
      "s' = s\<lparr>memory_condition := Some Conversation, conv_pc := C_TestFinished\<rparr>"
  | "conv_pc s = C_SetWaited"
      "s' = s\<lparr>conversation_waited := True, conv_pc := C_InConversation\<rparr>"
  | "conv_pc s = C_TestWaited" "conversation_waited s"
      "s' = s\<lparr>conv_pc := C_CallConversation\<rparr>"
  | "conv_pc s = C_TestWaited" "\<not> conversation_waited s"
      "s' = s\<lparr>conv_pc := C_ReleaseConversationLock\<rparr>"
  | c n where "conv_pc s = C_CombineRetry" "conversation_step s = Some c"
      "next_conversation_step s = Some n"
      "s' = s\<lparr>conversation_step := Some (combine_steps [c, n]),
               conversation_waited := False, conv_pc := C_ReleaseConversationLock\<rparr>"
  | "conv_pc s = C_ReleaseConversationLock"
      "s' = s\<lparr>conversation_agent_lock := None, conv_pc := C_AcquireResultLock\<rparr>"
  | "conv_pc s = C_AcquireResultLock" "memory_result_lock s = None"
      "s' = s\<lparr>step_result := conversation_step s,
               memory_result_lock := Some Conversation, conv_pc := C_MergeResult\<rparr>"
  | c where "conv_pc s = C_MergeResult" "conversation_step s = Some c"
      "s' = s\<lparr>step_result := Some (fst (merge_result (memory_result s) c)),
               memory_result := snd (merge_result (memory_result s) c),
               memory_result_lock := None, conv_pc := C_Returned\<rparr>"
proof (cases "conv_pc s")
  case C_InConversation
  show ?thesis
  proof (cases "tool_calls (current_turn s)")
    case 0
    show ?thesis
    proof (cases "turn_outcome (current_turn s)")
      case Raises
      with assms C_InConversation 0 that(6) show ?thesis
        by (simp add: conversation_thread_step_def)
    next
      case (Returns r)
      show ?thesis
      proof (cases "conversation_step s")
        case None
        with assms C_InConversation 0 Returns that(7) show ?thesis
          by (simp add: conversation_thread_step_def)
      next
        case (Some c)
        with assms C_InConversation 0 Returns that(8) show ?thesis
          by (simp add: conversation_thread_step_def)
      qed
    qed
  next
    case (Suc n)
    with assms C_InConversation that(5) show ?thesis
      by (simp add: conversation_thread_step_def)
  qed
next
  case C_CombineRetry
  with assms that(16) show ?thesis
    by (simp add: conversation_thread_step_def split: option.splits)
next
  case C_MergeResult
  with assms that(19) show ?thesis
    by (simp add: conversation_thread_step_def split: option.splits)
next
  case C_TestFinished
  with assms that(10,11) show ?thesis
    by (cases "memory_finished s") (simp_all add: conversation_thread_step_def)
next
  case C_TestWaited
  with assms that(14,15) show ?thesis
    by (cases "conversation_waited s") (simp_all add: conversation_thread_step_def)
next
  case C_ResetFinished
  with assms that(1) show ?thesis by (simp add: conversation_thread_step_def)
next
  case C_StartThread
  with assms that(2) show ?thesis by (simp add: conversation_thread_step_def)
next
  case C_AcquireConversationLock
  with assms that(3) show ?thesis by (simp add: conversation_thread_step_def split: if_splits)
next
  case C_CallConversation
  with assms that(4) show ?thesis by (simp add: conversation_thread_step_def)
next
  case C_AcquireCondition
  with assms that(9) show ?thesis by (simp add: conversation_thread_step_def split: if_splits)
next
  case C_Waiting
  with assms show ?thesis by (simp add: conversation_thread_step_def)
next
  case C_Notified
  with assms that(12) show ?thesis by (simp add: conversation_thread_step_def split: if_splits)
next
  case C_SetWaited
  with assms that(13) show ?thesis by (simp add: conversation_thread_step_def)
next
  case C_ReleaseConversationLock
  with assms that(17) show ?thesis by (simp add: conversation_thread_step_def)
next
  case C_AcquireResultLock
  with assms that(18) show ?thesis by (simp add: conversation_thread_step_def split: if_splits)
next
  case C_Returned
  with assms show ?thesis by (simp add: conversation_thread_step_def)
next
  case C_Raised
  with assms show ?thesis by (simp add: conversation_thread_step_def)
qed

lemma memory_thread_step_cases [consumes 1, case_names raise call result_lock store set_finished lock sync cond notify]:
  assumes "memory_thread_step ag s = Some s'"
  obtains
    "mem_pc s = M_CallMemory" "memory_agent_step ag = Raises"
      "s' = s\<lparr>mem_pc := M_Raised\<rparr>"
  | r where "mem_pc s = M_CallMemory" "memory_agent_step ag = Returns r"
      "s' = s\<lparr>memory_agent_memory := memory_agent_memory_after ag,
               memory_step := Some r, mem_pc := M_AcquireResultLock\<rparr>"
  | "mem_pc s = M_AcquireResultLock" "memory_result_lock s = None"
      "s' = s\<lparr>memory_result_lock := Some Memory, mem_pc := M_StoreResult\<rparr>"
  | r where "mem_pc s = M_StoreResult" "memory_step s = Some r"
      "s' = s\<lparr>memory_result := store_result (memory_result s) r,
               memory_result_lock := None, mem_pc := M_SetFinished\<rparr>"
  | "mem_pc s = M_SetFinished"
      "s' = s\<lparr>memory_finished := True, mem_pc := M_AcquireConversationLock\<rparr>"
  | "mem_pc s = M_AcquireConversationLock" "conversation_agent_lock s = None"
      "s' = s\<lparr>conversation_agent_lock := Some Memory, mem_pc := M_SyncMemory\<rparr>"
  | "mem_pc s = M_SyncMemory"
      "s' = s\<lparr>conversation_agent_memory := memory_agent_memory s,
               conversation_agent_lock := None, mem_pc := M_AcquireCondition\<rparr>"
  | "mem_pc s = M_AcquireCondition" "memory_condition s = None"
      "s' = s\<lparr>memory_condition := Some Memory, mem_pc := M_Notify\<rparr>"
  | "mem_pc s = M_Notify"
      "s' = s\<lparr>conv_pc := (if conv_pc s = C_Waiting then C_Notified else conv_pc s),
               memory_condition := None, mem_pc := M_Finished\<rparr>"
proof (cases "mem_pc s")
  case M_NotStarted
  with assms show ?thesis by (simp add: memory_thread_step_def)
next
  case M_CallMemory
  with assms that(1,2) show ?thesis
    by (cases "memory_agent_step ag") (simp_all add: memory_thread_step_def)
next
  case M_AcquireResultLock
  with assms that(3) show ?thesis by (simp add: memory_thread_step_def split: if_splits)
next
  case M_StoreResult
  with assms that(4) show ?thesis by (simp add: memory_thread_step_def split: option.splits)
next
  case M_SetFinished
  with assms that(5) show ?thesis by (simp add: memory_thread_step_def)
next
  case M_AcquireConversationLock
  with assms that(6) show ?thesis by (simp add: memory_thread_step_def split: if_splits)
next
  case M_SyncMemory
  with assms that(7) show ?thesis by (simp add: memory_thread_step_def)
next
  case M_AcquireCondition
  with assms that(8) show ?thesis by (simp add: memory_thread_step_def split: if_splits)
next
  case M_Notify
  with assms that(9) show ?thesis by (simp add: memory_thread_step_def)
next
  case M_Finished
  with assms show ?thesis by (simp add: memory_thread_step_def)
next
  case M_Raised
  with assms show ?thesis by (simp add: memory_thread_step_def)
qed

lemma exec_invariant:
  assumes step: "\<And>t s s'. P s \<Longrightarrow> thread_step ag t s = Some s' \<Longrightarrow> P s'"
    and "P s" and "exec ag sched s = Some s'"
  shows "P s'"
  using assms(2,3)
proof (induction sched arbitrary: s)
  case Nil
  then show ?case by simp
next
  case (Cons t sched)
  from Cons.prems(2) obtain s1 where s1: "thread_step ag t s = Some s1" and rest: "exec ag sched s1 = Some s'"
    by (auto split: option.splits)
  from step [OF Cons.prems(1) s1] have "P s1" .
  from Cons.IH [OF this rest] show ?case .
qed

section \<open>The invariants hold in every run\<close>

lemma lock_inv_entry: "lock_inv (entry slot w f cm mm)"
  by (simp add: lock_inv_def entry_def)

lemma lock_inv_conv:
  assumes "conversation_thread_step ag s = Some s'" and "lock_inv s"
  shows "lock_inv s'"
  using assms
  by (cases rule: conversation_thread_step_cases) (simp_all add: lock_inv_def split: if_splits)

lemma lock_inv_mem:
  assumes "memory_thread_step ag s = Some s'" and "lock_inv s"
  shows "lock_inv s'"
  using assms
  by (cases rule: memory_thread_step_cases) (simp_all add: lock_inv_def split: if_splits)

lemma before_set_finished_sync: "before_set_finished pc \<Longrightarrow> before_sync pc"
  by (cases pc) simp_all

lemma park_inv_entry: "park_inv (entry slot w f cm mm)"
  by (simp add: park_inv_def lock_inv_def entry_def)

lemma park_inv_conv:
  assumes "conversation_thread_step ag s = Some s'" and "park_inv s"
  shows "park_inv s'"
proof -
  have l: "lock_inv s'" using assms lock_inv_conv by (auto simp add: park_inv_def)
  show ?thesis
    using assms l
    by (cases rule: conversation_thread_step_cases)
      (auto simp add: park_inv_def lock_inv_def before_set_finished_sync)
qed

lemma park_inv_mem:
  assumes "memory_thread_step ag s = Some s'" and "park_inv s"
  shows "park_inv s'"
proof -
  have l: "lock_inv s'" using assms lock_inv_mem by (auto simp add: park_inv_def)
  have l0: "lock_inv s" using assms by (simp add: park_inv_def)
  show ?thesis
    using assms l l0
    by (cases rule: memory_thread_step_cases) (auto simp add: park_inv_def lock_inv_def split: if_splits)
qed

lemma park_inv_step: "park_inv s \<Longrightarrow> thread_step ag t s = Some s' \<Longrightarrow> park_inv s'"
  by (cases t) (auto simp add: thread_step_def intro: park_inv_conv park_inv_mem)

lemma parked_step:
  assumes "parked s" and "thread_step ag t s = Some s'"
  shows "parked s'"
proof (cases t)
  case Conversation
  with assms show ?thesis
    by (simp add: parked_def thread_step_def conversation_thread_step_def)
next
  case Memory
  with assms have m: "memory_thread_step ag s = Some s'" by (simp add: thread_step_def)
  have p: "park_inv s'" using m assms(1) by (auto simp add: parked_def intro: park_inv_mem)
  have "conv_pc s' = C_Waiting"
    using m assms(1)
    by (cases rule: memory_thread_step_cases) (auto simp add: parked_def park_inv_def)
  with p show ?thesis by (simp add: parked_def)
qed

lemma calls_inv_entry: "calls_inv ag (entry slot w f cm mm)"
  by (simp add: calls_inv_def entry_def)

lemma calls_inv_conv:
  assumes "conversation_thread_step ag s = Some s'" and "calls_inv ag s"
  shows "calls_inv ag s'"
  using assms
  by (cases rule: conversation_thread_step_cases)
    (auto simp add: calls_inv_def in_turn_def first_done_def turn_over_def both_done_def
      split: option.splits outcome.splits)

lemma calls_inv_mem:
  assumes "memory_thread_step ag s = Some s'" and "calls_inv ag s"
  shows "calls_inv ag s'"
  using assms
  by (cases rule: memory_thread_step_cases)
    (auto simp add: calls_inv_def in_turn_def first_done_def turn_over_def both_done_def
      split: conv_pc.splits outcome.splits option.splits)

lemma calls_inv_step: "calls_inv ag s \<Longrightarrow> thread_step ag t s = Some s' \<Longrightarrow> calls_inv ag s'"
  by (cases t) (auto simp add: thread_step_def intro: calls_inv_conv calls_inv_mem)

lemma no_retry_inv_entry: "no_retry_inv (entry slot False f cm mm)"
  by (simp add: no_retry_inv_def entry_def)

lemma no_retry_inv_conv:
  assumes "conversation_thread_step ag s = Some s'" and "no_retry_inv s"
    and "tool_calls (conversation_agent_step ag 0) = 0" and "calls_inv ag s"
  shows "no_retry_inv s'"
  using assms
  by (cases rule: conversation_thread_step_cases)
    (auto simp add: no_retry_inv_def calls_inv_def in_turn_def first_done_def)

lemma no_retry_inv_mem:
  assumes "memory_thread_step ag s = Some s'" and "no_retry_inv s"
  shows "no_retry_inv s'"
  using assms
  by (cases rule: memory_thread_step_cases) (auto simp add: no_retry_inv_def)

lemma no_retry_inv_step:
  assumes "tool_calls (conversation_agent_step ag 0) = 0"
    and "calls_inv ag s \<and> no_retry_inv s" and "thread_step ag t s = Some s'"
  shows "calls_inv ag s' \<and> no_retry_inv s'"
proof
  show "calls_inv ag s'" using assms(2,3) calls_inv_step by blast
  show "no_retry_inv s'"
  proof (cases t)
    case Conversation
    with assms(3) have "conversation_thread_step ag s = Some s'" by (simp add: thread_step_def)
    then show ?thesis using assms(1,2) no_retry_inv_conv by blast
  next
    case Memory
    with assms(3) have "memory_thread_step ag s = Some s'" by (simp add: thread_step_def)
    then show ?thesis using assms(2) no_retry_inv_mem by blast
  qed
qed

lemma calls_inv_bound: "calls_inv ag s \<Longrightarrow> conv_calls s \<le> 2"
  by (cases "conv_pc s") (auto simp add: calls_inv_def in_turn_def turn_over_def)

lemma turn_over_cases:
  assumes "turn_over ag s"
  shows "\<not> conversation_waited s
          \<and> (conv_calls s = 1
                \<and> (\<exists>c. turn_outcome (conversation_agent_step ag 0) = Returns c
                      \<and> conversation_step s = Some c)
              \<or> conv_calls s = 2
                \<and> (\<exists>c n. turn_outcome (conversation_agent_step ag 0) = Returns c
                      \<and> turn_outcome (conversation_agent_step ag 1) = Returns n
                      \<and> conversation_step s = Some (combine_steps [c, n])))"
proof -
  have w: "\<not> conversation_waited s" using assms by (simp add: turn_over_def)
  have "conv_calls s = 1 \<and> first_done ag s \<or> conv_calls s = 2 \<and> both_done ag s"
    using assms by (simp add: turn_over_def)
  then show ?thesis
  proof
    assume a: "conv_calls s = 1 \<and> first_done ag s"
    then have "\<exists>c. turn_outcome (conversation_agent_step ag 0) = Returns c \<and> conversation_step s = Some c"
      by (cases "conversation_step s") (simp_all add: first_done_def)
    with a w show ?thesis by simp
  next
    assume a: "conv_calls s = 2 \<and> both_done ag s"
    then have "\<exists>c n. turn_outcome (conversation_agent_step ag 0) = Returns c
                      \<and> turn_outcome (conversation_agent_step ag 1) = Returns n
                      \<and> conversation_step s = Some (combine_steps [c, n])"
      by (cases "turn_outcome (conversation_agent_step ag 0)";
          cases "turn_outcome (conversation_agent_step ag 1)") (simp_all add: both_done_def)
    with a w show ?thesis by simp
  qed
qed


lemma slot_inv_entry: "slot_inv ag slot (entry slot w f cm mm)"
  by (simp add: slot_inv_def entry_def)

lemma slot_inv_conv:
  assumes "conversation_thread_step ag s = Some s'" and "slot_inv ag slot s" and "lock_inv s"
  shows "slot_inv ag slot s'"
  using assms
  by (cases rule: conversation_thread_step_cases)
    (auto simp add: slot_inv_def lock_inv_def merge_result_def store_result_def
      split: option.splits)

lemma slot_inv_mem:
  assumes "memory_thread_step ag s = Some s'" and "slot_inv ag slot s" and "lock_inv s"
  shows "slot_inv ag slot s'"
  using assms
  by (cases rule: memory_thread_step_cases)
    (auto simp add: slot_inv_def lock_inv_def merge_result_def store_result_def
      split: option.splits if_splits)

lemma sync_inv_entry: "sync_inv ag cm (entry slot w f cm mm)"
  by (simp add: sync_inv_def entry_def)

lemma sync_inv_conv:
  assumes "conversation_thread_step ag s = Some s'" and "sync_inv ag cm s" and "lock_inv s"
  shows "sync_inv ag cm s'"
  using assms
  by (cases rule: conversation_thread_step_cases) (auto simp add: sync_inv_def lock_inv_def)

lemma sync_inv_mem:
  assumes "memory_thread_step ag s = Some s'" and "sync_inv ag cm s"
  shows "sync_inv ag cm s'"
  using assms
  by (cases rule: memory_thread_step_cases) (auto simp add: sync_inv_def)

lemma all_inv_entry: "all_inv ag slot cm (entry slot w f cm mm)"
  by (simp add: all_inv_def park_inv_entry calls_inv_entry slot_inv_entry sync_inv_entry)

lemma all_inv_step:
  assumes "all_inv ag slot cm s" and "thread_step ag t s = Some s'"
  shows "all_inv ag slot cm s'"
proof -
  have l: "lock_inv s" using assms(1) by (simp add: all_inv_def park_inv_def)
  show ?thesis
  proof (cases t)
    case Conversation
    with assms(2) have c: "conversation_thread_step ag s = Some s'" by (simp add: thread_step_def)
    show ?thesis
      using assms(1) l park_inv_conv [OF c] calls_inv_conv [OF c] slot_inv_conv [OF c]
        sync_inv_conv [OF c]
      by (simp add: all_inv_def)
  next
    case Memory
    with assms(2) have m: "memory_thread_step ag s = Some s'" by (simp add: thread_step_def)
    show ?thesis
      using assms(1) l park_inv_mem [OF m] calls_inv_mem [OF m] slot_inv_mem [OF m]
        sync_inv_mem [OF m]
      by (simp add: all_inv_def)
  qed
qed

lemma all_inv_exec:
  assumes "exec ag sched (entry slot w f cm mm) = Some s"
  shows "all_inv ag slot cm s"
  using all_inv_step all_inv_entry assms by (rule exec_invariant)

lemmas run_simps =
  example_entry_def entry_def thread_step_def conversation_thread_step_def memory_thread_step_def
  store_result_def merge_result_def stuck_def numeral_eq_Suc
  waiting_agents_def plain_agents_def raising_agents_def example_reply_def example_memory_def
  combine_steps_def combine_one_def empty_step_def usage_add_def UsageStatistics_def

lemmas more_run_simps =
  run_simps example_pending_def example_second_def raising_conversation_agents_def
  retrying_agents_def

section \<open>The merge phase and the pending result\<close>





section \<open>The invocations of the conversation agent\<close>

text \<open>
  Claim C5, as amended. In every run of a call of \<open>step\<close> the conversation agent's
  \<open>step\<close> has been invoked at most twice. If the retry flag
  \<open>conversation_waited\<close> is false when the call is entered and is not set during the
  turn (the first invocation does not call the waiting tool), it is invoked at most
  once, and exactly once when the call returns. When the call returns, the flag is
  false, and the conversation result is the first response if there was one invocation
  and the combination of the two responses if there were two: the messages of the first
  followed by those of the second, the disjunction of each flag, the sum of each usage
  count.
\<close>

theorem step_conversation_invocations:
  assumes "exec ag sched (entry slot waited finished cm mm) = Some s"
  shows "conv_calls s \<le> 2
    \<and> (\<not> waited \<and> tool_calls (conversation_agent_step ag 0) = 0
        \<longrightarrow> conv_calls s \<le> 1 \<and> (conv_pc s = C_Returned \<longrightarrow> conv_calls s = 1))
    \<and> (conv_pc s = C_Returned \<longrightarrow>
          \<not> conversation_waited s
          \<and> (conv_calls s = 1
                \<and> (\<exists>c. turn_outcome (conversation_agent_step ag 0) = Returns c
                      \<and> conversation_step s = Some c)
              \<or> conv_calls s = 2
                \<and> (\<exists>c n cs. turn_outcome (conversation_agent_step ag 0) = Returns c
                      \<and> turn_outcome (conversation_agent_step ag 1) = Returns n
                      \<and> conversation_step s = Some cs \<and> cs = combine_steps [c, n]
                      \<and> messages cs = messages c @ messages n
                      \<and> heartbeat_request cs = (heartbeat_request c \<or> heartbeat_request n)
                      \<and> function_failed cs = (function_failed c \<or> function_failed n)
                      \<and> in_context_memory_warning cs
                          = (in_context_memory_warning c \<or> in_context_memory_warning n)
                      \<and> completion_tokens (usage cs)
                          = completion_tokens (usage c) + completion_tokens (usage n)
                      \<and> prompt_tokens (usage cs) = prompt_tokens (usage c) + prompt_tokens (usage n)
                      \<and> total_tokens (usage cs) = total_tokens (usage c) + total_tokens (usage n))))"
proof (intro conjI impI)
  have pair: "messages (combine_steps [a, b]) = messages a @ messages b
      \<and> heartbeat_request (combine_steps [a, b]) = (heartbeat_request a \<or> heartbeat_request b)
      \<and> function_failed (combine_steps [a, b]) = (function_failed a \<or> function_failed b)
      \<and> in_context_memory_warning (combine_steps [a, b])
          = (in_context_memory_warning a \<or> in_context_memory_warning b)
      \<and> completion_tokens (usage (combine_steps [a, b]))
          = completion_tokens (usage a) + completion_tokens (usage b)
      \<and> prompt_tokens (usage (combine_steps [a, b]))
          = prompt_tokens (usage a) + prompt_tokens (usage b)
      \<and> total_tokens (usage (combine_steps [a, b]))
          = total_tokens (usage a) + total_tokens (usage b)"
    for a b :: "'a agent_step_response"
    by (simp add: combine_steps_def combine_one_def empty_step_def usage_add_def
        UsageStatistics_def)
  have c: "calls_inv ag s"
    using calls_inv_step calls_inv_entry assms by (rule exec_invariant)
  show "conv_calls s \<le> 2" using c by (rule calls_inv_bound)
  have r: "turn_over ag s" if "conv_pc s = C_Returned"
    using c that by (simp add: calls_inv_def)
  {
    assume "conv_pc s = C_Returned"
    from turn_over_cases [OF r [OF this]]
    show "\<not> conversation_waited s" by simp
  }
  {
    assume "conv_pc s = C_Returned"
    from turn_over_cases [OF r [OF this]]
    have "conv_calls s = 1
                \<and> (\<exists>c. turn_outcome (conversation_agent_step ag 0) = Returns c
                      \<and> conversation_step s = Some c)
              \<or> conv_calls s = 2
                \<and> (\<exists>c n. turn_outcome (conversation_agent_step ag 0) = Returns c
                      \<and> turn_outcome (conversation_agent_step ag 1) = Returns n
                      \<and> conversation_step s = Some (combine_steps [c, n]))" by simp
    then show "conv_calls s = 1
                \<and> (\<exists>c. turn_outcome (conversation_agent_step ag 0) = Returns c
                      \<and> conversation_step s = Some c)
              \<or> conv_calls s = 2
                \<and> (\<exists>c n cs. turn_outcome (conversation_agent_step ag 0) = Returns c
                      \<and> turn_outcome (conversation_agent_step ag 1) = Returns n
                      \<and> conversation_step s = Some cs \<and> cs = combine_steps [c, n]
                      \<and> messages cs = messages c @ messages n
                      \<and> heartbeat_request cs = (heartbeat_request c \<or> heartbeat_request n)
                      \<and> function_failed cs = (function_failed c \<or> function_failed n)
                      \<and> in_context_memory_warning cs
                          = (in_context_memory_warning c \<or> in_context_memory_warning n)
                      \<and> completion_tokens (usage cs)
                          = completion_tokens (usage c) + completion_tokens (usage n)
                      \<and> prompt_tokens (usage cs) = prompt_tokens (usage c) + prompt_tokens (usage n)
                      \<and> total_tokens (usage cs) = total_tokens (usage c) + total_tokens (usage n))"
      using pair by fastforce
  }
  {
    assume h: "\<not> waited \<and> tool_calls (conversation_agent_step ag 0) = 0"
    then have t: "tool_calls (conversation_agent_step ag 0) = 0" by simp
    have e: "calls_inv ag (entry slot waited finished cm mm)
        \<and> no_retry_inv (entry slot waited finished cm mm)"
      using h by (simp add: no_retry_inv_entry calls_inv_entry)
    have "calls_inv ag s \<and> no_retry_inv s"
      using no_retry_inv_step [OF t] e assms by (rule exec_invariant)
    then have n: "no_retry_inv s" by simp
    then show "conv_calls s \<le> 1" by (simp add: no_retry_inv_def)
    {
      assume "conv_pc s = C_Returned"
      from turn_over_cases [OF r [OF this]] n
      show "conv_calls s = 1" by (auto simp add: no_retry_inv_def)
    }
  }
qed

text \<open>
  Nothing resets \<open>conversation_waited\<close> when \<open>step\<close> is entered (line 104 resets
  \<open>memory_finished\<close> only), and line 150 is skipped when an invocation raises. A call
  whose conversation agent calls the tool and then raises leaves the flag true; in the
  next call the conversation agent calls no tool, the flag is never set during the turn,
  and the agent is invoked twice.
\<close>

theorem stale_flag_counterexample:
  "flag_left_true \<noteq> None \<and> conv_pc (the flag_left_true) = C_Raised
   \<and> mem_pc (the flag_left_true) = M_Finished
   \<and> conversation_waited (the flag_left_true)
   \<and> memory_finished (the flag_left_true)
   \<and> memory_result (the flag_left_true) = Some example_memory
   \<and> conversation_agent_memory (the flag_left_true) = 1
   \<and> memory_agent_memory (the flag_left_true) = 1
   \<and> conversation_agent_lock (the flag_left_true) = None
   \<and> memory_result_lock (the flag_left_true) = None
   \<and> memory_condition (the flag_left_true) = None
   \<and> tool_calls (conversation_agent_step plain_agents 0) = 0
   \<and> tool_calls (conversation_agent_step plain_agents 1) = 0
   \<and> stale_flag_call \<noteq> None \<and> conv_pc (the stale_flag_call) = C_Returned
   \<and> mem_pc (the stale_flag_call) = M_CallMemory
   \<and> conv_calls (the stale_flag_call) = 2
   \<and> conv_calls (the stale_flag_call) \<noteq> 1"
  by (simp add: flag_left_true_def stale_flag_call_def more_run_simps)

theorem step_conversation_invocations_witness:
  "tool_calls (conversation_agent_step plain_agents 0) = 0
   \<and> memory_first_returned \<noteq> None \<and> conv_pc (the memory_first_returned) = C_Returned
   \<and> conv_calls (the memory_first_returned) = 1
   \<and> \<not> conversation_waited (the memory_first_returned)
   \<and> conversation_step (the memory_first_returned) = Some example_reply
   \<and> tool_calls (conversation_agent_step retrying_agents 0) = 1
   \<and> retried \<noteq> None \<and> conv_pc (the retried) = C_Returned
   \<and> conv_calls (the retried) = 2
   \<and> \<not> conversation_waited (the retried)
   \<and> conversation_step (the retried)
       = Some \<lparr>messages = [''reply'', ''second''], heartbeat_request = True,
               function_failed = False, in_context_memory_warning = True,
               usage = \<lparr>completion_tokens = 8, prompt_tokens = 10, total_tokens = 18\<rparr>\<rparr>"
proof -
  have a: "exec plain_agents
        ([Conversation, Conversation] @ replicate 8 Memory @ replicate 7 Conversation)
        (entry None False False 0 0) = Some (the memory_first_returned)"
    by (simp add: memory_first_returned_def run_simps)
  have b: "exec retrying_agents
        (replicate 4 Conversation @ replicate 4 Memory @ replicate 12 Conversation)
        (entry None False False 0 0) = Some (the retried)"
    by (simp add: retried_def more_run_simps)
  have d: "memory_first_returned \<noteq> None \<and> conv_pc (the memory_first_returned) = C_Returned"
    by (simp add: memory_first_returned_def run_simps)
  have e: "retried \<noteq> None \<and> conv_pc (the retried) = C_Returned \<and> conv_calls (the retried) = 2"
    by (simp add: retried_def more_run_simps)
  have t: "tool_calls (conversation_agent_step plain_agents 0) = 0
      \<and> tool_calls (conversation_agent_step retrying_agents 0) = 1
      \<and> turn_outcome (conversation_agent_step plain_agents 0) = Returns example_reply
      \<and> turn_outcome (conversation_agent_step retrying_agents 0) = Returns example_reply
      \<and> turn_outcome (conversation_agent_step retrying_agents 1) = Returns example_second"
    by (simp add: plain_agents_def retrying_agents_def)
  have v: "messages example_reply @ messages example_second = [''reply'', ''second'']
      \<and> (heartbeat_request example_reply \<or> heartbeat_request example_second)
      \<and> \<not> (function_failed example_reply \<or> function_failed example_second)
      \<and> (in_context_memory_warning example_reply \<or> in_context_memory_warning example_second)
      \<and> completion_tokens (usage example_reply) + completion_tokens (usage example_second) = 8
      \<and> prompt_tokens (usage example_reply) + prompt_tokens (usage example_second) = 10
      \<and> total_tokens (usage example_reply) + total_tokens (usage example_second) = 18"
    by (simp add: example_reply_def example_second_def)
  have g: "conversation_step (the retried)
       = Some \<lparr>messages = [''reply'', ''second''], heartbeat_request = True,
               function_failed = False, in_context_memory_warning = True,
               usage = \<lparr>completion_tokens = 8, prompt_tokens = 10, total_tokens = 18\<rparr>\<rparr>"
    by (simp add: retried_def more_run_simps)
  from step_conversation_invocations [OF b] e t
  obtain cs where cs: "conversation_step (the retried) = Some cs"
      "messages cs = messages example_reply @ messages example_second"
      "heartbeat_request cs = (heartbeat_request example_reply \<or> heartbeat_request example_second)"
      "function_failed cs = (function_failed example_reply \<or> function_failed example_second)"
      "in_context_memory_warning cs
        = (in_context_memory_warning example_reply \<or> in_context_memory_warning example_second)"
      "completion_tokens (usage cs)
        = completion_tokens (usage example_reply) + completion_tokens (usage example_second)"
      "prompt_tokens (usage cs) = prompt_tokens (usage example_reply) + prompt_tokens (usage example_second)"
      "total_tokens (usage cs) = total_tokens (usage example_reply) + total_tokens (usage example_second)"
    by auto
  have "cs = \<lparr>messages = [''reply'', ''second''], heartbeat_request = True,
               function_failed = False, in_context_memory_warning = True,
               usage = \<lparr>completion_tokens = 8, prompt_tokens = 10, total_tokens = 18\<rparr>\<rparr>"
    using cs(2-8) v by (cases cs, cases "usage cs") simp
  with cs(1) have f: "conversation_step (the retried)
       = Some \<lparr>messages = [''reply'', ''second''], heartbeat_request = True,
               function_failed = False, in_context_memory_warning = True,
               usage = \<lparr>completion_tokens = 8, prompt_tokens = 10, total_tokens = 18\<rparr>\<rparr>"
    by simp
  show ?thesis
    using step_conversation_invocations [OF a] step_conversation_invocations [OF b] d e t f g
    by auto
qed

section \<open>A memory result that is ready before the merge\<close>




section \<open>Failure of the memory agent\<close>

text \<open>
  Claim C1, as amended. When the memory agent's \<open>step\<close> returns a response, failed
  function call or not, \<open>_memory_step\<close>, left to run with the three locks free,
  stores the response in the pending slot (a response with \<open>function_failed\<close> set
  leaves the slot with \<open>function_failed\<close> set), sets \<open>memory_finished\<close>, overwrites
  the conversation agent's memory and notifies the condition, which wakes a waiting
  thread. When the memory agent's \<open>step\<close> raises, nothing in \<open>_memory_step\<close>
  catches the exception: the thread ends at once, with \<open>memory_finished\<close> and the
  pending slot as they were, and without notifying.
\<close>

theorem memory_step_failure:
  assumes "mem_pc s = M_CallMemory"
  shows "(memory_agent_step ag = Raises \<longrightarrow>
           (\<exists>s'. memory_thread_step ag s = Some s' \<and> mem_pc s' = M_Raised
              \<and> memory_thread_step ag s' = None
              \<and> memory_finished s' = memory_finished s \<and> memory_result s' = memory_result s
              \<and> conv_pc s' = conv_pc s))
    \<and> (\<forall>r. memory_agent_step ag = Returns r \<and> memory_result_lock s = None
            \<and> conversation_agent_lock s = None \<and> memory_condition s = None \<longrightarrow>
           (\<exists>s' m. exec ag (replicate 8 Memory) s = Some s' \<and> mem_pc s' = M_Finished
              \<and> memory_finished s' \<and> memory_result s' = Some m
              \<and> Some m = store_result (memory_result s) r
              \<and> (function_failed r \<longrightarrow> function_failed m)
              \<and> conversation_agent_memory s' = memory_agent_memory_after ag
              \<and> conv_pc s' = (if conv_pc s = C_Waiting then C_Notified else conv_pc s)))"
proof (intro conjI impI allI)
  assume "memory_agent_step ag = Raises"
  with assms show "\<exists>s'. memory_thread_step ag s = Some s' \<and> mem_pc s' = M_Raised
              \<and> memory_thread_step ag s' = None
              \<and> memory_finished s' = memory_finished s \<and> memory_result s' = memory_result s
              \<and> conv_pc s' = conv_pc s"
    by (simp add: memory_thread_step_def)
next
  fix r
  assume h: "memory_agent_step ag = Returns r \<and> memory_result_lock s = None
            \<and> conversation_agent_lock s = None \<and> memory_condition s = None"
  have f: "function_failed (combine_steps [p, r])" if "function_failed r" for p
    using that by (simp add: combine_steps_pair combine_one_def)
  show "\<exists>s' m. exec ag (replicate 8 Memory) s = Some s' \<and> mem_pc s' = M_Finished
              \<and> memory_finished s' \<and> memory_result s' = Some m
              \<and> Some m = store_result (memory_result s) r
              \<and> (function_failed r \<longrightarrow> function_failed m)
              \<and> conversation_agent_memory s' = memory_agent_memory_after ag
              \<and> conv_pc s' = (if conv_pc s = C_Waiting then C_Notified else conv_pc s)"
    using assms h f
    by (cases "memory_result s")
      (simp_all add: numeral_eq_Suc thread_step_def memory_thread_step_def store_result_def)
qed

text \<open>
  The memory agent raises while the conversation agent waits on the condition: the
  memory thread has ended, \<open>memory_finished\<close> is false, no result with
  \<open>function_failed\<close> set has been recorded, and no thread can move.
\<close>

theorem memory_step_raise_counterexample:
  "raised_parked \<noteq> None \<and> memory_agent_step raising_agents = Raises
   \<and> mem_pc (the raised_parked) = M_Raised \<and> conv_pc (the raised_parked) = C_Waiting
   \<and> \<not> memory_finished (the raised_parked) \<and> memory_result (the raised_parked) = None
   \<and> stuck raising_agents (the raised_parked)"
  by (simp add: raised_parked_def run_simps)

theorem memory_step_failure_witness:
  "started \<noteq> None \<and> mem_pc (the started) = M_CallMemory
   \<and> memory_agent_step raising_agents = Raises
   \<and> (\<exists>s'. memory_thread_step raising_agents (the started) = Some s' \<and> mem_pc s' = M_Raised
         \<and> memory_thread_step raising_agents s' = None
         \<and> memory_finished s' = memory_finished (the started)
         \<and> memory_result s' = memory_result (the started))
   \<and> memory_agent_step plain_agents = Returns example_memory
   \<and> function_failed example_memory
   \<and> memory_result_lock (the started) = None \<and> conversation_agent_lock (the started) = None
   \<and> memory_condition (the started) = None
   \<and> (\<exists>s' m. exec plain_agents (replicate 8 Memory) (the started) = Some s'
         \<and> mem_pc s' = M_Finished \<and> memory_finished s' \<and> memory_result s' = Some m
         \<and> function_failed m \<and> conversation_agent_memory s' = 1)"
proof -
  have a: "started \<noteq> None \<and> mem_pc (the started) = M_CallMemory
      \<and> memory_result_lock (the started) = None \<and> conversation_agent_lock (the started) = None
      \<and> memory_condition (the started) = None"
    by (simp add: started_def run_simps)
  then have pc: "mem_pc (the started) = M_CallMemory" by simp
  have b: "memory_agent_step raising_agents = Raises
      \<and> memory_agent_step plain_agents = Returns example_memory
      \<and> function_failed example_memory \<and> memory_agent_memory_after plain_agents = 1"
    by (simp add: raising_agents_def plain_agents_def example_memory_def)
  show ?thesis
    using memory_step_failure [OF pc, of raising_agents] memory_step_failure [OF pc, of plain_agents]
      a b
    by auto
qed

section \<open>Waiting for the memory update\<close>

text \<open>
  Claim C2 fails on the code. In every run of a call of \<open>step\<close>, once the calling
  thread blocks in \<open>self.memory_condition.wait()\<close> it stays blocked in every
  continuation of the run, whatever the memory agent does: it holds
  \<open>conversation_agent_lock\<close>, and the memory thread never gets past the
  \<open>with self.conversation_agent_lock\<close> of line 192, so it never reaches
  \<open>notify()\<close>.
\<close>

theorem parked_conversation_never_resumes:
  assumes "exec ag sched (entry slot waited finished cm mm) = Some s"
    and "conv_pc s = C_Waiting"
    and "exec ag sched' s = Some s'"
  shows "conv_pc s' = C_Waiting \<and> before_sync (mem_pc s')
    \<and> conversation_agent_lock s' = Some Conversation
    \<and> conversation_thread_step ag s' = None"
proof -
  have "park_inv s"
    using park_inv_step park_inv_entry assms(1) by (rule exec_invariant)
  with assms(2) have "parked s" by (simp add: parked_def)
  have "parked s'"
    using parked_step \<open>parked s\<close> assms(3) by (rule exec_invariant)
  then show ?thesis
    by (simp add: parked_def park_inv_def lock_inv_def conversation_thread_step_def)
qed

text \<open>
  The conversation agent calls the tool before the memory agent has finished. The memory
  agent then returns, its response is stored and \<open>memory_finished\<close> is set, and both
  threads are blocked for good.
\<close>

theorem parked_conversation_never_resumes_witness:
  "parked_state \<noteq> None \<and> conv_pc (the parked_state) = C_Waiting
   \<and> mem_pc (the parked_state) = M_CallMemory
   \<and> exec waiting_agents (replicate 4 Memory) (the parked_state) = parked_end
   \<and> parked_end \<noteq> None
   \<and> conv_pc (the parked_end) = C_Waiting
   \<and> mem_pc (the parked_end) = M_AcquireConversationLock
   \<and> memory_finished (the parked_end)
   \<and> memory_result (the parked_end) = Some example_memory
   \<and> conversation_agent_lock (the parked_end) = Some Conversation
   \<and> stuck waiting_agents (the parked_end)"
proof -
  have a: "exec waiting_agents (replicate 7 Conversation) (entry None False False 0 0)
      = Some (the parked_state)"
    by (simp add: parked_state_def run_simps)
  have b: "conv_pc (the parked_state) = C_Waiting"
    by (simp add: parked_state_def run_simps)
  have c: "exec waiting_agents (replicate 4 Memory) (the parked_state) = Some (the parked_end)"
    by (simp add: parked_state_def parked_end_def run_simps)
  have d: "parked_state \<noteq> None \<and> parked_end \<noteq> None
      \<and> mem_pc (the parked_state) = M_CallMemory
      \<and> Some (the parked_end) = parked_end
      \<and> mem_pc (the parked_end) = M_AcquireConversationLock
      \<and> memory_finished (the parked_end)
      \<and> memory_result (the parked_end) = Some example_memory
      \<and> memory_thread_step waiting_agents (the parked_end) = None"
    by (simp add: parked_state_def parked_end_def run_simps)
  from parked_conversation_never_resumes [OF a b c]
  have "conv_pc (the parked_end) = C_Waiting
      \<and> conversation_agent_lock (the parked_end) = Some Conversation
      \<and> conversation_thread_step waiting_agents (the parked_end) = None"
    by simp
  with b c d show ?thesis by (simp add: stuck_def)
qed

text \<open>
  Claim C8 fails on the code. In every run of a call of \<open>step\<close>: once the memory
  thread has left the block of lines 192-195 (so before it notifies), the conversation
  agent's memory is the memory agent's memory; until the memory thread has entered that
  block, the conversation agent's memory is still the one of the entry; and
  \<open>memory_finished\<close> is already true while the memory thread waits to enter the
  block. So a tool call that finds the flag set returns while the conversation agent's
  memory is the old one.
\<close>

theorem conversation_memory_during_turn:
  assumes "exec ag sched (entry slot waited finished cm mm) = Some s"
  shows "(mem_pc s = M_AcquireCondition \<or> mem_pc s = M_Notify \<or> mem_pc s = M_Finished
            \<longrightarrow> conversation_agent_memory s = memory_agent_memory s)
    \<and> (before_sync (mem_pc s) \<longrightarrow> conversation_agent_memory s = cm)
    \<and> (mem_pc s = M_AcquireConversationLock \<longrightarrow> memory_finished s)"
proof -
  have a: "all_inv ag slot cm s" using assms(1) by (rule all_inv_exec)
  then have sy: "sync_inv ag cm s" and p: "park_inv s" by (simp_all add: all_inv_def)
  have 1: "conversation_agent_memory s = memory_agent_memory s"
    if "mem_pc s = M_AcquireCondition \<or> mem_pc s = M_Notify \<or> mem_pc s = M_Finished"
    using sy that by (auto simp add: sync_inv_def)
  have 2: "conversation_agent_memory s = cm" if "before_sync (mem_pc s)"
    using sy that by (simp add: sync_inv_def)
  have 3: "memory_finished s" if "mem_pc s = M_AcquireConversationLock"
    using p that by (auto simp add: park_inv_def lock_inv_def)
  show ?thesis using 1 2 3 by blast
qed

text \<open>
  The memory agent finishes during the first invocation of the conversation agent. The
  tool finds \<open>memory_finished\<close> set and returns, the second invocation starts and the
  call returns, all with the conversation agent's memory still 0 while the memory agent's
  memory is 1. Only a memory thread that has run to its end before the calling thread
  took the conversation lock has updated the conversation agent's memory.
\<close>

theorem conversation_memory_during_turn_witness:
  "stale_retry \<noteq> None \<and> before_sync (mem_pc (the stale_retry))
   \<and> mem_pc (the stale_retry) = M_AcquireConversationLock
   \<and> memory_finished (the stale_retry) \<and> conversation_waited (the stale_retry)
   \<and> conv_pc (the stale_retry) = C_CallConversation
   \<and> conversation_step (the stale_retry) = Some example_reply
   \<and> conversation_agent_memory (the stale_retry) = 0
   \<and> memory_agent_memory (the stale_retry) = 1
   \<and> retry_returned \<noteq> None \<and> before_sync (mem_pc (the retry_returned))
   \<and> conv_pc (the retry_returned) = C_Returned \<and> conv_calls (the retry_returned) = 2
   \<and> conversation_agent_memory (the retry_returned) = 0
   \<and> memory_agent_memory (the retry_returned) = 1
   \<and> memory_first \<noteq> None \<and> mem_pc (the memory_first) = M_Finished
   \<and> conversation_agent_memory (the memory_first) = memory_agent_memory (the memory_first)
   \<and> memory_agent_memory (the memory_first) = 1"
proof -
  have a: "exec waiting_agents
        (replicate 4 Conversation @ replicate 4 Memory @ replicate 6 Conversation)
        (entry None False False 0 0) = Some (the stale_retry)"
    by (simp add: stale_retry_def run_simps)
  have b: "exec waiting_agents
        (replicate 4 Conversation @ replicate 4 Memory @ replicate 12 Conversation)
        (entry None False False 0 0) = Some (the retry_returned)"
    by (simp add: retry_returned_def run_simps)
  have c: "exec plain_agents ([Conversation, Conversation] @ replicate 8 Memory)
        (entry None False False 0 0) = Some (the memory_first)"
    by (simp add: memory_first_def run_simps)
  have d: "stale_retry \<noteq> None \<and> before_sync (mem_pc (the stale_retry))
      \<and> mem_pc (the stale_retry) = M_AcquireConversationLock
      \<and> conversation_waited (the stale_retry)
      \<and> conv_pc (the stale_retry) = C_CallConversation
      \<and> conversation_step (the stale_retry) = Some example_reply
      \<and> memory_agent_memory (the stale_retry) = 1"
    by (simp add: stale_retry_def run_simps)
  have e: "retry_returned \<noteq> None \<and> before_sync (mem_pc (the retry_returned))
      \<and> conv_pc (the retry_returned) = C_Returned \<and> conv_calls (the retry_returned) = 2
      \<and> memory_agent_memory (the retry_returned) = 1"
    by (simp add: retry_returned_def run_simps)
  have f: "memory_first \<noteq> None \<and> mem_pc (the memory_first) = M_Finished
      \<and> memory_agent_memory (the memory_first) = 1"
    by (simp add: memory_first_def run_simps)
  show ?thesis
    using conversation_memory_during_turn [OF a] conversation_memory_during_turn [OF b]
      conversation_memory_during_turn [OF c] d e f
    by simp
qed

end
